theory Spec2Isabelle
  imports Main "HOL-Library.Word"
begin

section \<open>The echo server of \<open>src/echo_server/echo_server.cc\<close>\<close>

text \<open>
  The server is a handful of libuv callbacks. Every callback is embedded as a function that
  takes the world before the call and returns the world after it. The world holds what the
  callbacks can touch: the static \<open>loop_\<close> (the field \<open>static_loop\<close>), the C heap, the
  state of the libuv handles, and the sequence of the calls made to libuv, to \<open>::free\<close>
  and to \<open>::fprintf\<close>, in the order the code makes them. libuv itself is not part of the
  repository: the value each of its calls returns is an argument of the function that
  makes the call.
\<close>

subsection \<open>Pointers, handles and the heap\<close>

type_synonym addr = nat
type_synonym byte = "8 word"

text \<open>A pointer is \<open>addr option\<close>, \<open>None\<close> being \<open>NULL\<close>.\<close>

text \<open>
  A \<open>uv_tcp_t\<close> is either the static \<open>server_\<close> or a block that \<open>connection_cb\<close> got
  from \<open>::malloc\<close>.
\<close>

datatype handle = Server | Client addr

datatype uv_loop = Default_loop

text \<open>\<open>uv_buf_t\<close>: a pointer and a length.\<close>

record uv_buf_t =
  base :: "addr option"
  len :: nat

text \<open>
  \<open>struct write_data\<close>. Of the \<open>uv_write_t req\<close> only the field \<open>data\<close> is used by the
  code; \<open>req\<close> is the first member, so \<open>&wd->req\<close> is the address of the block.
\<close>

record write_data =
  req_data :: addr
  buf :: uv_buf_t

datatype obj = Bytes "byte list" | Write_data write_data | Tcp

text \<open>
  What the handle is to libuv. \<open>uv_tcp_init\<close> registers the handle with the loop;
  \<open>uv_tcp_bind\<close> creates the socket and then binds it, \<open>uv_accept\<close> gives the client
  handle the accepted socket; a stream that started reading reads until \<open>uv_close\<close>
  (lines 146-147), and \<open>uv_close\<close> is the one call that releases a handle and its socket.
\<close>

datatype hstate = Uninit | Inited | Opened | Listening | Reading | Closed

datatype event =
    Stderr string int
  | Free addr
  | Uv_ip4_addr string int int
  | Uv_tcp_init uv_loop handle
  | Uv_tcp_bind handle int
  | Uv_listen handle int int
  | Uv_accept handle handle int
  | Uv_read_start handle int
  | Uv_write addr handle uv_buf_t "byte list" int
  | Uv_close handle

record world =
  static_loop :: "uv_loop option"
  heap :: "obj option list"
  hstatus :: "handle \<Rightarrow> hstate"
  trace :: "event list"

text \<open>
  The heap is indexed by address. A block that was freed stays in the list as \<open>None\<close>, so
  an address is never handed out twice and a second \<open>free\<close> of it is seen.
\<close>

definition lookup :: "world \<Rightarrow> addr \<Rightarrow> obj option" where
  "lookup w a = (if a < length (heap w) then heap w ! a else None)"

text \<open>\<open>::malloc\<close>. Memory exhaustion is outside the model: the block is always there.\<close>

definition malloc :: "world \<Rightarrow> obj \<Rightarrow> addr \<times> world" where
  "malloc w ob = (length (heap w), w\<lparr>heap := heap w @ [Some ob]\<rparr>)"

text \<open>
  \<open>::free\<close>. \<open>free(NULL)\<close> does nothing; freeing what is not a live block is undefined
  behaviour, the result \<open>None\<close>.
\<close>

definition free :: "world \<Rightarrow> addr option \<Rightarrow> world option" where
  "free w p =
     (case p of
        None \<Rightarrow> Some w
      | Some a \<Rightarrow>
          (case lookup w a of
             None \<Rightarrow> None
           | Some ob \<Rightarrow> Some (w\<lparr>heap := (heap w)[a := None], trace := trace w @ [Free a]\<rparr>)))"

text \<open>Writing an object into a live block; anywhere else it is undefined behaviour.\<close>

definition store :: "world \<Rightarrow> addr \<Rightarrow> obj \<Rightarrow> world option" where
  "store w a ob =
     (case lookup w a of
        None \<Rightarrow> None
      | Some old \<Rightarrow> Some (w\<lparr>heap := (heap w)[a := Some ob]\<rparr>))"

text \<open>Freeing a handle: the static \<open>server_\<close> is not a heap block.\<close>

definition free_handle :: "world \<Rightarrow> handle \<Rightarrow> world option" where
  "free_handle w h = (case h of Server \<Rightarrow> None | Client a \<Rightarrow> free w (Some a))"

subsection \<open>The calls to libuv\<close>

text \<open>\<open>uv_buf_init(char *base, unsigned int len)\<close>: the length is cut to 32 bits.\<close>

definition uv_buf_init :: "addr option \<Rightarrow> nat \<Rightarrow> uv_buf_t" where
  "uv_buf_init b n = \<lparr>base = b, len = n mod 2 ^ 32\<rparr>"

text \<open>The bytes a buffer denotes, when it lies within a live block of bytes.\<close>

definition buf_bytes :: "world \<Rightarrow> uv_buf_t \<Rightarrow> byte list option" where
  "buf_bytes w b =
     (case base b of
        None \<Rightarrow> None
      | Some a \<Rightarrow>
          (case lookup w a of
             Some (Bytes bs) \<Rightarrow> if len b \<le> length bs then Some (take (len b) bs) else None
           | _ \<Rightarrow> None))"

definition log_event :: "world \<Rightarrow> event \<Rightarrow> world" where
  "log_event w e = w\<lparr>trace := trace w @ [e]\<rparr>"

definition set_hstatus :: "world \<Rightarrow> handle \<Rightarrow> hstate \<Rightarrow> world" where
  "set_hstatus w h s = w\<lparr>hstatus := (hstatus w)(h := s)\<rparr>"

definition uv_tcp_init :: "world \<Rightarrow> uv_loop \<Rightarrow> handle \<Rightarrow> world" where
  "uv_tcp_init w l h = set_hstatus (log_event w (Uv_tcp_init l h)) h Inited"

text \<open>
  \<open>uv_tcp_bind\<close> creates the socket before it calls \<open>bind(2)\<close>: the handle holds an open
  socket afterwards, whether the bind succeeded or not. (The source, at lines 202-205,
  assumes that it holds one only after a successful call.)
\<close>

definition uv_tcp_bind :: "world \<Rightarrow> handle \<Rightarrow> int \<Rightarrow> world" where
  "uv_tcp_bind w h r = set_hstatus (log_event w (Uv_tcp_bind h r)) h Opened"

definition uv_listen :: "world \<Rightarrow> handle \<Rightarrow> int \<Rightarrow> int \<Rightarrow> world" where
  "uv_listen w h backlog r =
     (let w1 = log_event w (Uv_listen h backlog r)
      in if r = 0 then set_hstatus w1 h Listening else w1)"

definition uv_accept :: "world \<Rightarrow> handle \<Rightarrow> handle \<Rightarrow> int \<Rightarrow> world" where
  "uv_accept w server client r =
     (let w1 = log_event w (Uv_accept server client r)
      in if r = 0 then set_hstatus w1 client Opened else w1)"

definition uv_read_start :: "world \<Rightarrow> handle \<Rightarrow> int \<Rightarrow> world" where
  "uv_read_start w h r =
     (let w1 = log_event w (Uv_read_start h r) in if r = 0 then set_hstatus w1 h Reading else w1)"

definition uv_close :: "world \<Rightarrow> handle \<Rightarrow> world" where
  "uv_close w h = set_hstatus (log_event w (Uv_close h)) h Closed"

text \<open>The memory of a handle is there: \<open>server_\<close> is static, a client is a live block.\<close>

definition handle_live :: "world \<Rightarrow> handle \<Rightarrow> bool" where
  "handle_live w h = (case h of Server \<Rightarrow> True | Client a \<Rightarrow> lookup w a = Some Tcp)"

text \<open>
  \<open>uv_write(req, stream, &buf, 1, write_cb)\<close>. The event keeps the bytes the buffer
  denotes when the call is made; a stream that was freed, or a buffer that lies in no live
  block, is undefined behaviour.
\<close>

definition uv_write :: "world \<Rightarrow> addr \<Rightarrow> handle \<Rightarrow> uv_buf_t \<Rightarrow> int \<Rightarrow> world option" where
  "uv_write w req stream b r =
     (if handle_live w stream then
        (case buf_bytes w b of
           None \<Rightarrow> None
         | Some bs \<Rightarrow> Some (log_event w (Uv_write req stream b bs r)))
      else None)"

text \<open>\<open>UV_EOF\<close>, from libuv's \<open>uv-errno.h\<close>.\<close>

definition UV_EOF :: int where
  "UV_EOF = - 4095"

text \<open>A \<open>ssize_t\<close> passed where an \<open>int\<close> is expected keeps its low 32 bits.\<close>

definition int_of_ssize :: "int \<Rightarrow> int" where
  "int_of_ssize n = sint (word_of_int n :: 32 word)"

subsection \<open>The callbacks\<close>

definition error :: "world \<Rightarrow> string \<Rightarrow> int \<Rightarrow> world" where
  "error w prefix status = log_event w (Stderr prefix status)"


definition free_write_data :: "world \<Rightarrow> addr \<Rightarrow> world option" where
  "free_write_data w wd =
     (case lookup w wd of
        Some (Write_data d) \<Rightarrow>
          (case free w (base (buf d)) of
             None \<Rightarrow> None
           | Some w1 \<Rightarrow> free w1 (Some wd))
      | _ \<Rightarrow> None)"

definition write_cb :: "world \<Rightarrow> addr \<Rightarrow> int \<Rightarrow> world option" where
  "write_cb w req status =
     (case lookup w req of
        Some (Write_data d) \<Rightarrow>
          (case free_write_data w (req_data d) of
             None \<Rightarrow> None
           | Some w1 \<Rightarrow>
               Some (if status \<noteq> 0 then error w1 ''Error on writing client stream'' status
                     else w1))
      | _ \<Rightarrow> None)"

definition close_and_free :: "world \<Rightarrow> handle \<Rightarrow> world option" where
  "close_and_free w client = free_handle (uv_close w client) client"

text \<open>
  \<open>read_cb\<close>. The local \<open>in_data\<close> is the buffer the reader still has to free; it is
  set to \<open>NULL\<close> where the buffer is handed to the write, and the last statement frees
  what is left. \<open>r\<close> is what \<open>uv_write\<close> returns.
\<close>

definition read_cb :: "world \<Rightarrow> handle \<Rightarrow> int \<Rightarrow> uv_buf_t \<Rightarrow> int \<Rightarrow> world option" where
  "read_cb w stream nread in_buf r =
     (let in_data = base in_buf in
      case
        (if nread > 0 then
           (let (wd, w0) = malloc w (Write_data \<lparr>req_data = 0, buf = uv_buf_init None 0\<rparr>);
                b = uv_buf_init in_data (nat nread)
            in case store w0 wd (Write_data \<lparr>req_data = wd, buf = b\<rparr>) of
                 None \<Rightarrow> None
               | Some w1 \<Rightarrow>
                   (case uv_write w1 wd stream b r of
                      None \<Rightarrow> None
                    | Some w2 \<Rightarrow>
                        if r = 0 then Some (None, w2)
                        else (case free_write_data w2 wd of
                                None \<Rightarrow> None
                              | Some w3 \<Rightarrow>
                                  Some (None, error w3 ''Error on writing client stream'' r))))
         else if nread < 0 then
           (case close_and_free
                   (if nread \<noteq> UV_EOF
                    then error w ''Error on reading client stream'' (int_of_ssize nread)
                    else w) stream of
              None \<Rightarrow> None
            | Some w1 \<Rightarrow> Some (in_data, w1))
         else Some (in_data, w))
      of
        None \<Rightarrow> None
      | Some (in_data', w') \<Rightarrow> free w' in_data')"

definition connection_cb :: "world \<Rightarrow> handle \<Rightarrow> int \<Rightarrow> int \<Rightarrow> int \<Rightarrow> world option" where
  "connection_cb w server status r_accept r_read_start =
     (if status < 0 then Some (error w ''Error on listening'' status)
      else
        (let (c, w1) = malloc w Tcp; client = Client c in
         case static_loop w1 of
           None \<Rightarrow> None
         | Some l \<Rightarrow>
             (let w2 = uv_accept (uv_tcp_init w1 l client) server client r_accept in
              if r_accept = 0 then
                (let w3 = uv_read_start w2 client r_read_start in
                 if r_read_start = 0 then Some w3
                 else (case close_and_free w3 client of
                         None \<Rightarrow> None
                       | Some w4 \<Rightarrow>
                           Some (error w4 ''Error on reading client stream'' r_read_start)))
              else (case free w2 (Some c) of
                      None \<Rightarrow> None
                    | Some w3 \<Rightarrow>
                        Some (error w3 ''Error on accepting client connection'' r_accept)))))"

subsection \<open>\<open>start\<close>\<close>

text \<open>
  The arguments of the JavaScript call. A number carries the 64-bit value that
  \<open>IntegerValue()\<close> gives for it; the assignment to \<open>int port\<close> keeps its low 32 bits.
\<close>

datatype jsval = Number "64 word" | Not_a_number

datatype js_result = Returned | Thrown string

definition start :: "world \<Rightarrow> jsval list \<Rightarrow> int \<Rightarrow> int \<Rightarrow> int \<Rightarrow> js_result \<times> world" where
  "start w args r_addr r_bind r_listen =
     (if length args \<noteq> 1 then (Thrown ''Wrong number of arguments'', w)
      else case args ! 0 of
        Not_a_number \<Rightarrow> (Thrown ''Wrong arguments'', w)
      | Number v \<Rightarrow>
          if static_loop w \<noteq> None then (Thrown ''Already started'', w)
          else
            (let port = sint (ucast v :: 32 word);
                 loop = Default_loop;
                 w1 = log_event w (Uv_ip4_addr ''127.0.0.1'' port r_addr);
                 (r, w5) =
                   (if r_addr = 0 then
                      (let w2 = uv_tcp_bind (uv_tcp_init w1 loop Server) Server r_bind in
                       if r_bind = 0 then
                         (let w3 = uv_listen w2 Server 0 r_listen in
                          if r_listen = 0 then (r_listen, w3\<lparr>static_loop := Some loop\<rparr>)
                          else (r_listen, error (uv_close w3 Server) ''Error on listening'' r_listen))
                       else (r_bind, error w2 ''Error on binding'' r_bind))
                    else (r_addr, error w1 ''Error on parsing address'' r_addr))
             in if r \<noteq> 0 then (Thrown ''Failed to start'', w5) else (Returned, w5)))"

subsection \<open>What the event loop delivers\<close>





subsection \<open>Reading the trace\<close>






text \<open>The calls to \<open>uv_write\<close> for a stream: the request and the bytes of each.\<close>

fun writes :: "handle \<Rightarrow> event list \<Rightarrow> (addr \<times> byte list) list" where
  "writes s [] = []"
| "writes s (Uv_write req h b bs r # es) =
     (if h = s then (req, bs) # writes s es else writes s es)"
| "writes s (e # es) = writes s es"

text \<open>The lines written to \<open>stderr\<close>.\<close>

fun logs :: "event list \<Rightarrow> (string \<times> int) list" where
  "logs [] = []"
| "logs (Stderr prefix status # es) = (prefix, status) # logs es"
| "logs (e # es) = logs es"

definition was_closed :: "handle \<Rightarrow> world \<Rightarrow> bool" where
  "was_closed h w = (Uv_close h \<in> set (trace w))"


text \<open>
  What libuv promises of the arguments of \<open>read_cb\<close>: the stream is a client handle on the
  heap; the buffer is the one \<open>alloc_cb\<close> made, a live block of bytes of which \<open>nread\<close>
  were filled, or has no block, and then no byte was read.
\<close>

definition read_args_ok :: "world \<Rightarrow> handle \<Rightarrow> int \<Rightarrow> uv_buf_t \<Rightarrow> bool" where
  "read_args_ok w stream nread in_buf =
     ((case stream of Server \<Rightarrow> False | Client s \<Rightarrow> lookup w s = Some Tcp) \<and>
      (case base in_buf of
         None \<Rightarrow> nread \<le> 0
       | Some a \<Rightarrow>
           (case lookup w a of
              Some (Bytes bs) \<Rightarrow>
                len in_buf \<le> length bs \<and> len in_buf < 2 ^ 32 \<and> nread \<le> int (len in_buf)
            | _ \<Rightarrow> False)))"

text \<open>The world before \<open>start\<close> was ever called.\<close>

definition init_world :: world where
  "init_world = \<lparr>static_loop = None, heap = [], hstatus = (\<lambda>h. Uninit), trace = []\<rparr>"

text \<open>The handle holds an open socket.\<close>

definition socket_open :: "world \<Rightarrow> handle \<Rightarrow> bool" where
  "socket_open w h = (hstatus w h = Opened \<or> hstatus w h = Listening \<or> hstatus w h = Reading)"

text \<open>
  libuv still has the handle (it was initialised and never closed) and the memory of the
  handle was freed.
\<close>

definition dangling :: "handle \<Rightarrow> world \<Rightarrow> bool" where
  "dangling h w = (hstatus w h \<noteq> Uninit \<and> hstatus w h \<noteq> Closed \<and> \<not> handle_live w h)"

text \<open>A write request that libuv holds: its block owns the block of bytes \<open>a\<close>.\<close>

definition owns :: "world \<Rightarrow> addr \<Rightarrow> addr \<Rightarrow> bool" where
  "owns w req a =
     (case lookup w req of
        Some (Write_data d) \<Rightarrow>
          req_data d = req \<and> base (buf d) = Some a \<and>
          (case lookup w a of Some (Bytes bs) \<Rightarrow> True | _ \<Rightarrow> False)
      | _ \<Rightarrow> False)"

subsection \<open>Example worlds\<close>

text \<open>The server after a successful \<open>start(8080)\<close>.\<close>

definition started_world :: world where
  "started_world = snd (start init_world [Number 8080] 0 0 0)"

text \<open>
  A running server with one client that reads (the block 0) and a read buffer of four bytes
  (the block 1) of which libuv filled three.
\<close>

definition client_world :: world where
  "client_world =
     \<lparr>static_loop = Some Default_loop,
      heap = [Some Tcp, Some (Bytes [104, 105, 33, 0])],
      hstatus = (\<lambda>h. Uninit)(Server := Listening, Client 0 := Reading),
      trace = []\<rparr>"

definition client_buf :: uv_buf_t where
  "client_buf = \<lparr>base = Some 1, len = 4\<rparr>"

text \<open>The same after \<open>read_cb\<close> handed the three bytes to a write that libuv accepted.\<close>

definition pending_world :: world where
  "pending_world =
     \<lparr>static_loop = Some Default_loop,
      heap = [Some Tcp, Some (Bytes [104, 105, 33, 0]),
              Some (Write_data \<lparr>req_data = 2, buf = \<lparr>base = Some 1, len = 3\<rparr>\<rparr>)],
      hstatus = (\<lambda>h. Uninit)(Server := Listening, Client 0 := Reading),
      trace = [Uv_write 2 (Client 0) \<lparr>base = Some 1, len = 3\<rparr> [104, 105, 33] 0]\<rparr>"





section \<open>The wrapped object of \<open>src/native_wrap\<close>\<close>

subsection \<open>Doubles\<close>











subsection \<open>\<open>third_party.cpp\<close> and \<open>native_wrap.cpp\<close>\<close>












section \<open>Basic facts\<close>

lemmas uv_defs = log_event_def set_hstatus_def uv_tcp_init_def uv_tcp_bind_def uv_listen_def
  uv_accept_def uv_read_start_def uv_close_def error_def

lemmas heap_defs = lookup_def malloc_def free_def store_def free_handle_def buf_bytes_def
  uv_buf_init_def uv_write_def free_write_data_def close_and_free_def handle_live_def

subsection \<open>The trace\<close>

lemma writes_append: "writes s (xs @ ys) = writes s xs @ writes s ys"
  by (induction s xs rule: writes.induct) auto



lemma logs_append: "logs (xs @ ys) = logs xs @ logs ys"
  by (induction xs rule: logs.induct) auto

subsection \<open>The arguments of \<open>read_cb\<close>\<close>

lemma read_args_cases:
  assumes "read_args_ok w stream nread in_buf"
  shows "\<exists>s. stream = Client s \<and> lookup w s = Some Tcp \<and>
           (base in_buf = None \<and> nread \<le> 0 \<or>
            (\<exists>a bs. base in_buf = Some a \<and> lookup w a = Some (Bytes bs) \<and> a \<noteq> s \<and>
               len in_buf \<le> length bs \<and> len in_buf < 2 ^ 32 \<and> nread \<le> int (len in_buf)))"
proof (cases stream)
  case Server
  with assms show ?thesis by (simp add: read_args_ok_def)
next
  case (Client s)
  with assms have tcp: "lookup w s = Some Tcp"
    by (simp add: read_args_ok_def)
  show ?thesis
  proof (cases "base in_buf")
    case None
    with assms Client tcp show ?thesis by (simp add: read_args_ok_def)
  next
    case (Some a)
    with assms obtain bs where "lookup w a = Some (Bytes bs)" "len in_buf \<le> length bs"
      "len in_buf < 2 ^ 32" "nread \<le> int (len in_buf)"
      by (auto simp: read_args_ok_def split: option.splits obj.splits)
    moreover from this tcp have "a \<noteq> s" by auto
    ultimately show ?thesis using Client tcp Some by simp
  qed
qed

lemma read_args_pos:
  assumes "read_args_ok w stream nread in_buf" "0 < nread"
  obtains s a bs where "stream = Client s" "lookup w s = Some Tcp" "base in_buf = Some a"
    "lookup w a = Some (Bytes bs)" "nat nread \<le> length bs" "nat nread < 2 ^ 32" "a \<noteq> s"
    "handle_live w stream"
proof -
  from read_args_cases [OF assms(1)] assms(2) obtain s a bs where *: "stream = Client s"
    "lookup w s = Some Tcp" "base in_buf = Some a" "lookup w a = Some (Bytes bs)" "a \<noteq> s"
    "len in_buf \<le> length bs" "len in_buf < 2 ^ 32" "nread \<le> int (len in_buf)"
    by auto
  from * have "nat nread \<le> length bs" "nat nread < 2 ^ 32" "handle_live w stream"
    by (auto simp: handle_live_def)
  with * that show thesis by blast
qed

lemma not_owns_freed: "lookup w a = None \<Longrightarrow> \<not> owns w req a"
  by (auto simp: owns_def split: option.splits obj.splits)


subsection \<open>The world after each callback\<close>

lemma free_live:
  assumes "lookup w a = Some ob"
  shows "free w (Some a) = Some (w\<lparr>heap := (heap w)[a := None], trace := trace w @ [Free a]\<rparr>)"
  using assms by (simp add: free_def)

lemma read_cb_accepted:
  assumes "handle_live w stream" "base in_buf = Some a" "lookup w a = Some (Bytes bs)" "nat nread \<le> length bs"
    "nat nread < 2 ^ 32" "0 < nread"
  shows "read_cb w stream nread in_buf 0 =
    Some (w\<lparr>heap := heap w @
               [Some (Write_data \<lparr>req_data = length (heap w),
                                  buf = \<lparr>base = Some a, len = nat nread\<rparr>\<rparr>)],
            trace := trace w @
               [Uv_write (length (heap w)) stream \<lparr>base = Some a, len = nat nread\<rparr>
                  (take (nat nread) bs) 0]\<rparr>)"
  using assms
  by (auto simp: read_cb_def heap_defs uv_defs Let_def nth_append split: if_splits handle.splits)

lemma read_cb_refused:
  assumes "handle_live w stream" "base in_buf = Some a" "lookup w a = Some (Bytes bs)" "nat nread \<le> length bs"
    "nat nread < 2 ^ 32" "0 < nread" "r \<noteq> 0"
  shows "read_cb w stream nread in_buf r =
    Some (w\<lparr>heap := (heap w)[a := None] @ [None],
            trace := trace w @
               [Uv_write (length (heap w)) stream \<lparr>base = Some a, len = nat nread\<rparr>
                  (take (nat nread) bs) r,
                Free a, Free (length (heap w)),
                Stderr ''Error on writing client stream'' r]\<rparr>)"
  using assms
  by (auto simp: read_cb_def heap_defs uv_defs Let_def nth_append list_update_append
      split: if_splits handle.splits)

lemma read_cb_zero:
  "read_cb w stream 0 in_buf r = free w (base in_buf)"
  by (simp add: read_cb_def)


lemma read_cb_negative_block:
  assumes "lookup w s = Some Tcp" "nread < 0" "base in_buf = Some a"
    "lookup w a = Some (Bytes bs)"
  shows "read_cb w (Client s) nread in_buf r =
    Some (w\<lparr>heap := (heap w)[s := None, a := None],
            hstatus := (hstatus w)(Client s := Closed),
            trace := trace w @
               (if nread \<noteq> UV_EOF
                then [Stderr ''Error on reading client stream'' (int_of_ssize nread)] else []) @
               [Uv_close (Client s), Free s, Free a]\<rparr>)"
  using assms
  by (auto simp: read_cb_def heap_defs uv_defs Let_def nth_list_update split: if_splits option.splits)

lemma write_cb_world:
  assumes "lookup w req = Some (Write_data d)" "req_data d = req" "base (buf d) = Some a"
    "lookup w a = Some (Bytes bs)"
  shows "write_cb w req status =
    Some (w\<lparr>heap := (heap w)[a := None, req := None],
            trace := trace w @ [Free a, Free req] @
              (if status \<noteq> 0 then [Stderr ''Error on writing client stream'' status] else [])\<rparr>)"
  using assms
  by (auto simp: write_cb_def heap_defs uv_defs Let_def nth_list_update split: if_splits option.splits)

lemma connection_cb_accept_failed:
  assumes "static_loop w = Some l" "0 \<le> status" "r_accept \<noteq> 0"
  shows "connection_cb w server status r_accept r_read_start =
    Some (w\<lparr>heap := heap w @ [None],
            hstatus := (hstatus w)(Client (length (heap w)) := Inited),
            trace := trace w @
              [Uv_tcp_init l (Client (length (heap w))),
               Uv_accept server (Client (length (heap w))) r_accept,
               Free (length (heap w)),
               Stderr ''Error on accepting client connection'' r_accept]\<rparr>)"
  using assms
  by (auto simp: connection_cb_def heap_defs uv_defs Let_def split: if_splits option.splits)

lemma connection_cb_read_start_failed:
  assumes "static_loop w = Some l" "0 \<le> status" "r_read_start \<noteq> 0"
  shows "connection_cb w server status 0 r_read_start =
    Some (w\<lparr>heap := heap w @ [None],
            hstatus := (hstatus w)(Client (length (heap w)) := Closed),
            trace := trace w @
              [Uv_tcp_init l (Client (length (heap w))),
               Uv_accept server (Client (length (heap w))) 0,
               Uv_read_start (Client (length (heap w))) r_read_start,
               Uv_close (Client (length (heap w))),
               Free (length (heap w)),
               Stderr ''Error on reading client stream'' r_read_start]\<rparr>)"
  using assms
  by (auto simp: connection_cb_def heap_defs uv_defs Let_def split: if_splits option.splits)

subsection \<open>The world after \<open>start\<close>\<close>

lemma start_success:
  assumes "static_loop w = None"
  shows "start w [Number v] 0 0 0 =
     (Returned,
      w\<lparr>static_loop := Some Default_loop,
        hstatus := (hstatus w)(Server := Listening),
        trace := trace w @
          [Uv_ip4_addr ''127.0.0.1'' (sint (ucast v :: 32 word)) 0,
           Uv_tcp_init Default_loop Server,
           Uv_tcp_bind Server 0,
           Uv_listen Server 0 0]\<rparr>)"
  using assms by (simp add: start_def uv_defs Let_def)

lemma bind_failure_world:
  assumes "static_loop w = None" and "r_bind \<noteq> 0"
  shows "start w [Number v] 0 r_bind r_listen =
     (Thrown ''Failed to start'',
      w\<lparr>hstatus := (hstatus w)(Server := Opened),
        trace := trace w @
          [Uv_ip4_addr ''127.0.0.1'' (sint (ucast v :: 32 word)) 0,
           Uv_tcp_init Default_loop Server,
           Uv_tcp_bind Server r_bind,
           Stderr ''Error on binding'' r_bind]\<rparr>)"
  using assms by (simp add: start_def uv_defs Let_def)

lemma listen_failure_world:
  assumes "static_loop w = None" and "r_listen \<noteq> 0"
  shows "start w [Number v] 0 0 r_listen =
     (Thrown ''Failed to start'',
      w\<lparr>hstatus := (hstatus w)(Server := Closed),
        trace := trace w @
          [Uv_ip4_addr ''127.0.0.1'' (sint (ucast v :: 32 word)) 0,
           Uv_tcp_init Default_loop Server,
           Uv_tcp_bind Server 0,
           Uv_listen Server 0 r_listen,
           Uv_close Server,
           Stderr ''Error on listening'' r_listen]\<rparr>)"
  using assms by (simp add: start_def uv_defs Let_def)

lemma started_world_eq:
  "started_world =
     \<lparr>static_loop = Some Default_loop,
      heap = [],
      hstatus = (\<lambda>h. Uninit)(Server := Listening),
      trace = [Uv_ip4_addr ''127.0.0.1'' 8080 0, Uv_tcp_init Default_loop Server,
               Uv_tcp_bind Server 0, Uv_listen Server 0 0]\<rparr>"
  by (simp add: started_world_def init_world_def start_success)

section \<open>\<open>start\<close>\<close>

text \<open>
  C7. When the service is running (\<open>loop_\<close> is set), a further call of \<open>start\<close> with a
  valid argument throws "Already started" and changes nothing: the listener, the started
  state and everything else of the world are as before. Whatever libuv would have returned
  plays no part, since no libuv call is made.
\<close>

theorem start_already_started:
  assumes "static_loop w \<noteq> None"
  shows "start w [Number v] r_addr r_bind r_listen = (Thrown ''Already started'', w)"
  using assms by (simp add: start_def)

theorem start_already_started_witness:
  "static_loop started_world \<noteq> None \<and>
   start started_world [Number 9090] 0 0 0 = (Thrown ''Already started'', started_world)"
proof -
  have h: "static_loop started_world \<noteq> None"
    by (simp add: started_world_eq)
  show ?thesis
    using h start_already_started [OF h, of 9090 0 0 0] by simp
qed

text \<open>
  C4. The claim holds of what \<open>start\<close> reports and of \<open>loop_\<close>, and fails of the
  resources: when \<open>uv_tcp_bind\<close> fails, \<open>start\<close> logs "Error on binding" and throws
  "Failed to start" with \<open>loop_\<close> still \<open>NULL\<close>, but it makes no call that releases the
  handle, which is left with the socket \<open>uv_tcp_bind\<close> created. Here: \<open>start(80)\<close> with
  \<open>uv_tcp_bind\<close> returning -13. The branch for a failed \<open>uv_listen\<close> does call
  \<open>uv_close\<close>.
\<close>

theorem bind_failure_leaves_socket:
  "start init_world [Number 80] 0 (- 13) 0 =
     (Thrown ''Failed to start'',
      init_world\<lparr>hstatus := (hstatus init_world)(Server := Opened),
        trace := [Uv_ip4_addr ''127.0.0.1'' 80 0,
                  Uv_tcp_init Default_loop Server,
                  Uv_tcp_bind Server (- 13),
                  Stderr ''Error on binding'' (- 13)]\<rparr>) \<and>
   static_loop (snd (start init_world [Number 80] 0 (- 13) 0)) = None \<and>
   socket_open (snd (start init_world [Number 80] 0 (- 13) 0)) Server \<and>
   was_closed Server (snd (start init_world [Number 80] 0 (- 13) 0)) = False \<and>
   was_closed Server (snd (start init_world [Number 80] 0 0 (- 13))) = True"
proof -
  have none: "static_loop init_world = None"
    by (simp add: init_world_def)
  have bind: "(- 13 :: int) \<noteq> 0"
    by simp
  show ?thesis
    unfolding bind_failure_world [OF none bind] listen_failure_world [OF none bind]
    by (simp add: init_world_def socket_open_def was_closed_def)
qed

text \<open>
  C8. When \<open>uv_listen\<close> fails after a successful bind, \<open>start\<close> calls \<open>uv_close\<close> on the
  listening handle, then logs "Error on listening", then throws "Failed to start": the
  socket is closed in the world the error is returned with, and \<open>loop_\<close> is still \<open>NULL\<close>.
\<close>

theorem start_listen_failure:
  assumes "static_loop w = None" and "r_listen \<noteq> 0"
  shows "\<exists>w'. start w [Number v] 0 0 r_listen = (Thrown ''Failed to start'', w') \<and>
           trace w' = trace w @
             [Uv_ip4_addr ''127.0.0.1'' (sint (ucast v :: 32 word)) 0,
              Uv_tcp_init Default_loop Server,
              Uv_tcp_bind Server 0,
              Uv_listen Server 0 r_listen,
              Uv_close Server,
              Stderr ''Error on listening'' r_listen] \<and>
           was_closed Server w' \<and>
           hstatus w' Server = Closed \<and>
           \<not> socket_open w' Server \<and>
           heap w' = heap w \<and>
           static_loop w' = None"
  using assms
  by (simp add: listen_failure_world socket_open_def was_closed_def)

theorem start_listen_failure_witness:
  "static_loop init_world = None \<and> (- 98 :: int) \<noteq> 0 \<and>
   (\<exists>w'. start init_world [Number 8080] 0 0 (- 98) = (Thrown ''Failed to start'', w') \<and>
      trace w' = trace init_world @
        [Uv_ip4_addr ''127.0.0.1'' (sint (ucast (8080 :: 64 word) :: 32 word)) 0,
         Uv_tcp_init Default_loop Server,
         Uv_tcp_bind Server 0,
         Uv_listen Server 0 (- 98),
         Uv_close Server,
         Stderr ''Error on listening'' (- 98)] \<and>
      was_closed Server w' \<and>
      hstatus w' Server = Closed \<and>
      \<not> socket_open w' Server \<and>
      heap w' = heap init_world \<and>
      static_loop w' = None)"
proof -
  have h1: "static_loop init_world = None"
    by (simp add: init_world_def)
  have h2: "(- 98 :: int) \<noteq> 0"
    by simp
  show ?thesis
    using h1 h2 start_listen_failure [OF h1 h2, of 8080] by blast
qed

section \<open>\<open>read_cb\<close> and \<open>write_cb\<close>\<close>

lemma client_args_ok:
  "nread \<le> 4 \<Longrightarrow> read_args_ok client_world (Client 0) nread client_buf"
  by (simp add: read_args_ok_def client_world_def client_buf_def lookup_def)

lemma pending_world_reached:
  "read_cb client_world (Client 0) 3 client_buf 0 = Some pending_world"
proof -
  have live: "handle_live client_world (Client 0)"
    by (simp add: handle_live_def client_world_def lookup_def)
  have blk: "base client_buf = Some 1"
    "lookup client_world 1 = Some (Bytes [104, 105, 33, 0])"
    by (simp_all add: client_buf_def client_world_def lookup_def)
  have n: "nat 3 \<le> length [104 :: byte, 105, 33, 0]" "nat 3 < (2 :: nat) ^ 32" "(0 :: int) < 3"
    by simp_all
  show ?thesis
    unfolding read_cb_accepted [OF live blk n]
    by (simp add: client_world_def pending_world_def numeral_3_eq_3)
qed

lemma write_cb_releases:
  assumes "owns w req a"
  shows "\<exists>w'. write_cb w req status = Some w' \<and>
           trace w' = trace w @ [Free a, Free req] @
             (if status \<noteq> 0 then [Stderr ''Error on writing client stream'' status] else []) \<and>
           lookup w' a = None \<and>
           lookup w' req = None"
proof -
  from assms obtain d bs where d: "lookup w req = Some (Write_data d)" "req_data d = req"
    "base (buf d) = Some a" "lookup w a = Some (Bytes bs)"
    by (auto simp: owns_def split: option.splits obj.splits)
  from d have "a < length (heap w)" "req < length (heap w)" "a \<noteq> req"
    by (auto simp: lookup_def split: if_splits)
  then show ?thesis
    by (simp add: write_cb_world [OF d] lookup_def)
qed

lemma pending_owns: "owns pending_world 2 1"
  by (simp add: owns_def pending_world_def lookup_def)




text \<open>
  C6. A read completion that reports zero bytes frees the read buffer and does nothing
  else: no \<open>uv_write\<close>, no \<open>uv_close\<close>, nothing logged, the handles and \<open>loop_\<close> as
  they were, so the stream goes on reading.
\<close>

theorem read_cb_zero_noop:
  assumes "read_args_ok w stream 0 in_buf"
  shows "\<exists>w'. read_cb w stream 0 in_buf r = Some w' \<and>
           trace w' = trace w @ (case base in_buf of None \<Rightarrow> [] | Some a \<Rightarrow> [Free a]) \<and>
           heap w' = (case base in_buf of None \<Rightarrow> heap w | Some a \<Rightarrow> (heap w)[a := None]) \<and>
           hstatus w' = hstatus w \<and>
           static_loop w' = static_loop w \<and>
           writes stream (trace w') = writes stream (trace w) \<and>
           was_closed stream w' = was_closed stream w \<and>
           logs (trace w') = logs (trace w)"
proof -
  from read_args_cases [OF assms]
  consider "base in_buf = None"
    | a bs where "base in_buf = Some a" "lookup w a = Some (Bytes bs)"
    by auto
  then show ?thesis
  proof cases
    case 1
    then show ?thesis
      by (simp add: read_cb_zero free_def)
  next
    case 2
    then show ?thesis
      by (simp add: read_cb_zero free_live writes_append logs_append was_closed_def)
  qed
qed

theorem read_cb_zero_noop_witness:
  "read_args_ok client_world (Client 0) 0 client_buf \<and>
   (\<exists>w'. read_cb client_world (Client 0) 0 client_buf 0 = Some w' \<and>
      trace w' = [Free 1] \<and>
      heap w' = [Some Tcp, None] \<and>
      hstatus w' = hstatus client_world \<and>
      static_loop w' = static_loop client_world \<and>
      writes (Client 0) (trace w') = [] \<and>
      was_closed (Client 0) w' = was_closed (Client 0) client_world \<and>
      logs (trace w') = [])"
proof -
  have h: "read_args_ok client_world (Client 0) 0 client_buf"
    by (simp add: client_args_ok)
  from read_cb_zero_noop [OF h, of 0] obtain w' where
    "read_cb client_world (Client 0) 0 client_buf 0 = Some w'"
    "trace w' = trace client_world @
       (case base client_buf of None \<Rightarrow> [] | Some a \<Rightarrow> [Free a])"
    "heap w' = (case base client_buf of None \<Rightarrow> heap client_world
                | Some a \<Rightarrow> (heap client_world)[a := None])"
    "hstatus w' = hstatus client_world"
    "static_loop w' = static_loop client_world"
    "writes (Client 0) (trace w') = writes (Client 0) (trace client_world)"
    "was_closed (Client 0) w' = was_closed (Client 0) client_world"
    "logs (trace w') = logs (trace client_world)"
    by blast
  then show ?thesis
    using h by (simp add: client_world_def client_buf_def)
qed




text \<open>
  C9. A failed write is logged and nothing more. When \<open>write_cb\<close> is called with a
  status that is not 0, it frees the payload and the request and logs "Error on writing
  client stream"; when \<open>uv_write\<close> itself returns a status that is not 0, \<open>read_cb\<close>
  frees the payload and the request at once and logs the same. In neither case is
  \<open>uv_close\<close> called or the state of any handle changed.
\<close>

theorem write_failure_log_only:
  "(owns w req a \<and> status \<noteq> 0 \<longrightarrow>
      (\<exists>w'. write_cb w req status = Some w' \<and>
         trace w' = trace w @
           [Free a, Free req, Stderr ''Error on writing client stream'' status] \<and>
         lookup w' a = None \<and>
         lookup w' req = None \<and>
         hstatus w' = hstatus w \<and>
         (\<forall>h. was_closed h w' = was_closed h w))) \<and>
   (read_args_ok w stream nread in_buf \<and> 0 < nread \<and> r \<noteq> 0 \<longrightarrow>
      (\<exists>w' a bs. base in_buf = Some a \<and> lookup w a = Some (Bytes bs) \<and>
         read_cb w stream nread in_buf r = Some w' \<and>
         trace w' = trace w @
           [Uv_write (length (heap w)) stream \<lparr>base = Some a, len = nat nread\<rparr>
              (take (nat nread) bs) r,
            Free a, Free (length (heap w)),
            Stderr ''Error on writing client stream'' r] \<and>
         lookup w' a = None \<and>
         lookup w' (length (heap w)) = None \<and>
         hstatus w' = hstatus w \<and>
         (\<forall>h. was_closed h w' = was_closed h w)))"
proof (intro conjI impI)
  assume "owns w req a \<and> status \<noteq> 0"
  then obtain d bs where d: "lookup w req = Some (Write_data d)" "req_data d = req"
    "base (buf d) = Some a" "lookup w a = Some (Bytes bs)" and st: "status \<noteq> 0"
    by (auto simp: owns_def split: option.splits obj.splits)
  from d have "a < length (heap w)" "req < length (heap w)" "a \<noteq> req"
    by (auto simp: lookup_def split: if_splits)
  then show "\<exists>w'. write_cb w req status = Some w' \<and>
         trace w' = trace w @
           [Free a, Free req, Stderr ''Error on writing client stream'' status] \<and>
         lookup w' a = None \<and>
         lookup w' req = None \<and>
         hstatus w' = hstatus w \<and>
         (\<forall>h. was_closed h w' = was_closed h w)"
    using st by (simp add: write_cb_world [OF d] lookup_def was_closed_def)
next
  assume a: "read_args_ok w stream nread in_buf \<and> 0 < nread \<and> r \<noteq> 0"
  then obtain a bs where *: "handle_live w stream" "base in_buf = Some a"
    "lookup w a = Some (Bytes bs)" "nat nread \<le> length bs" "nat nread < 2 ^ 32"
    by (auto elim: read_args_pos)
  from * have "a < length (heap w)" by (simp add: lookup_def split: if_splits)
  then show "\<exists>w' a bs. base in_buf = Some a \<and> lookup w a = Some (Bytes bs) \<and>
         read_cb w stream nread in_buf r = Some w' \<and>
         trace w' = trace w @
           [Uv_write (length (heap w)) stream \<lparr>base = Some a, len = nat nread\<rparr>
              (take (nat nread) bs) r,
            Free a, Free (length (heap w)),
            Stderr ''Error on writing client stream'' r] \<and>
         lookup w' a = None \<and>
         lookup w' (length (heap w)) = None \<and>
         hstatus w' = hstatus w \<and>
         (\<forall>h. was_closed h w' = was_closed h w)"
    using a * by (simp add: read_cb_refused [OF *] lookup_def was_closed_def nth_append)
qed

theorem write_failure_log_only_witness:
  "owns pending_world 2 1 \<and> (- 32 :: int) \<noteq> 0 \<and>
   (\<exists>w'. write_cb pending_world 2 (- 32) = Some w' \<and>
      trace w' = trace pending_world @
        [Free 1, Free 2, Stderr ''Error on writing client stream'' (- 32)] \<and>
      lookup w' 1 = None \<and>
      lookup w' 2 = None \<and>
      hstatus w' = hstatus pending_world \<and>
      was_closed (Client 0) w' = was_closed (Client 0) pending_world) \<and>
   read_args_ok client_world (Client 0) 3 client_buf \<and> (0 :: int) < 3 \<and>
   (\<exists>w'. read_cb client_world (Client 0) 3 client_buf (- 32) = Some w' \<and>
      trace w' =
        [Uv_write 2 (Client 0) \<lparr>base = Some 1, len = 3\<rparr> [104, 105, 33] (- 32),
         Free 1, Free 2,
         Stderr ''Error on writing client stream'' (- 32)] \<and>
      lookup w' 1 = None \<and>
      lookup w' 2 = None \<and>
      hstatus w' = hstatus client_world \<and>
      was_closed (Client 0) w' = was_closed (Client 0) client_world)"
proof -
  have h1: "owns pending_world 2 1 \<and> (- 32 :: int) \<noteq> 0"
    using pending_owns by simp
  have h2: "read_args_ok client_world (Client 0) 3 client_buf \<and> (0 :: int) < 3 \<and>
      (- 32 :: int) \<noteq> 0"
    by (simp add: client_args_ok)
  note inst1 = write_failure_log_only [where w = pending_world and req = 2 and a = 1
      and status = "- 32"]
  note inst2 = write_failure_log_only [where w = client_world and stream = "Client 0"
      and nread = 3 and in_buf = client_buf and r = "- 32"]
  from inst1 h1 obtain w1 where w1:
    "write_cb pending_world 2 (- 32) = Some w1"
    "trace w1 = trace pending_world @
        [Free 1, Free 2, Stderr ''Error on writing client stream'' (- 32)]"
    "lookup w1 1 = None" "lookup w1 2 = None"
    "hstatus w1 = hstatus pending_world"
    "\<forall>h. was_closed h w1 = was_closed h pending_world"
    by blast
  from inst2 h2 obtain w2 a bs where w2:
    "base client_buf = Some a" "lookup client_world a = Some (Bytes bs)"
    "read_cb client_world (Client 0) 3 client_buf (- 32) = Some w2"
    "trace w2 = trace client_world @
       [Uv_write (length (heap client_world)) (Client 0) \<lparr>base = Some a, len = nat 3\<rparr>
          (take (nat 3) bs) (- 32),
        Free a, Free (length (heap client_world)),
        Stderr ''Error on writing client stream'' (- 32)]"
    "lookup w2 a = None"
    "lookup w2 (length (heap client_world)) = None"
    "hstatus w2 = hstatus client_world"
    "\<forall>h. was_closed h w2 = was_closed h client_world"
    by blast
  from w2(1) have a: "a = 1"
    by (simp add: client_buf_def)
  from w2(2) a have bs: "bs = [104, 105, 33, 0]"
    by (simp add: client_world_def lookup_def)
  have "\<exists>w'. read_cb client_world (Client 0) 3 client_buf (- 32) = Some w' \<and>
      trace w' =
        [Uv_write 2 (Client 0) \<lparr>base = Some 1, len = 3\<rparr> [104, 105, 33] (- 32),
         Free 1, Free 2,
         Stderr ''Error on writing client stream'' (- 32)] \<and>
      lookup w' 1 = None \<and>
      lookup w' 2 = None \<and>
      hstatus w' = hstatus client_world \<and>
      was_closed (Client 0) w' = was_closed (Client 0) client_world"
    using w2 a bs by (simp add: client_world_def numeral_2_eq_2)
  with w1 h1 h2 show ?thesis
    by blast
qed

lemma read_cb_releases:
  assumes "read_args_ok w stream nread in_buf" and "base in_buf = Some a"
  shows "\<exists>w'. read_cb w stream nread in_buf r = Some w' \<and>
           (if 0 < nread \<and> r = 0 then
              count_list (trace w') (Free a) = count_list (trace w) (Free a) \<and>
              lookup w' a = lookup w a \<and>
              owns w' (length (heap w)) a \<and>
              map fst (writes stream (trace w')) =
                map fst (writes stream (trace w)) @ [length (heap w)] \<and>
              (\<forall>status. \<exists>w''. write_cb w' (length (heap w)) status = Some w'' \<and>
                 count_list (trace w'') (Free a) = count_list (trace w) (Free a) + 1 \<and>
                 lookup w'' a = None \<and>
                 lookup w'' (length (heap w)) = None)
            else
              count_list (trace w') (Free a) = count_list (trace w) (Free a) + 1 \<and>
              lookup w' a = None \<and>
              (\<forall>req. \<not> owns w' req a))"
proof -
  from read_args_cases [OF assms(1)] assms(2) obtain s bs where
    s: "stream = Client s" "lookup w s = Some Tcp" and
    a: "lookup w a = Some (Bytes bs)" "a \<noteq> s" and
    n: "len in_buf \<le> length bs" "len in_buf < 2 ^ 32" "nread \<le> int (len in_buf)"
    by auto
  from a s have lt: "a < length (heap w)" "s < length (heap w)"
    by (auto simp: lookup_def split: if_splits)
  from s have live: "handle_live w stream"
    by (simp add: handle_live_def)
  consider "0 < nread" "r = 0" | "0 < nread" "r \<noteq> 0" | "nread = 0" | "nread < 0"
    by linarith
  then show ?thesis
  proof cases
    case 1
    from n 1 have m: "nat nread \<le> length bs" "nat nread < 2 ^ 32" by auto
    let ?q = "length (heap w)"
    let ?d = "\<lparr>req_data = ?q, buf = \<lparr>base = Some a, len = nat nread\<rparr>\<rparr>"
    let ?w' = "w\<lparr>heap := heap w @ [Some (Write_data ?d)],
            trace := trace w @
               [Uv_write ?q stream \<lparr>base = Some a, len = nat nread\<rparr> (take (nat nread) bs) 0]\<rparr>"
    have rd: "read_cb w stream nread in_buf r = Some ?w'"
      using 1 read_cb_accepted [OF live assms(2) a(1) m 1(1)] by simp
    have d: "lookup ?w' ?q = Some (Write_data ?d)" "req_data ?d = ?q"
      "base (buf ?d) = Some a" "lookup ?w' a = Some (Bytes bs)"
      using a lt by (simp_all add: lookup_def nth_append)
    have own: "owns ?w' ?q a"
      by (simp add: owns_def d)
    have wr: "write_cb ?w' ?q status =
      Some (?w'\<lparr>heap := (heap ?w')[a := None, ?q := None],
            trace := trace ?w' @ [Free a, Free ?q] @
              (if status \<noteq> 0 then [Stderr ''Error on writing client stream'' status] else [])\<rparr>)"
      for status
      by (rule write_cb_world [OF d])
    have completes: "\<exists>w''. write_cb ?w' ?q status = Some w'' \<and>
                 count_list (trace w'') (Free a) = count_list (trace w) (Free a) + 1 \<and>
                 lookup w'' a = None \<and> lookup w'' ?q = None" for status
      unfolding wr using lt by (simp add: lookup_def)
    show ?thesis
      unfolding rd using 1 own completes a(1) d(4)
      by (simp add: writes_append)
  next
    case 2
    from n 2 have m: "nat nread \<le> length bs" "nat nread < 2 ^ 32" by auto
    let ?w' = "w\<lparr>heap := (heap w)[a := None] @ [None],
            trace := trace w @
               [Uv_write (length (heap w)) stream \<lparr>base = Some a, len = nat nread\<rparr>
                  (take (nat nread) bs) r,
                Free a, Free (length (heap w)),
                Stderr ''Error on writing client stream'' r]\<rparr>"
    have rd: "read_cb w stream nread in_buf r = Some ?w'"
      by (rule read_cb_refused [OF live assms(2) a(1) m 2])
    have gone: "lookup ?w' a = None"
      using lt by (simp add: lookup_def nth_append)
    show ?thesis
      unfolding rd using 2 gone not_owns_freed [OF gone] lt by simp
  next
    case 3
    let ?w' = "w\<lparr>heap := (heap w)[a := None], trace := trace w @ [Free a]\<rparr>"
    have rd: "read_cb w stream nread in_buf r = Some ?w'"
      using 3 assms(2) by (simp add: read_cb_zero free_live [OF a(1)])
    have gone: "lookup ?w' a = None"
      using lt by (simp add: lookup_def)
    show ?thesis
      unfolding rd using 3 gone not_owns_freed [OF gone] lt by simp
  next
    case 4
    let ?w' = "w\<lparr>heap := (heap w)[s := None, a := None],
            hstatus := (hstatus w)(Client s := Closed),
            trace := trace w @
               (if nread \<noteq> UV_EOF
                then [Stderr ''Error on reading client stream'' (int_of_ssize nread)] else []) @
               [Uv_close (Client s), Free s, Free a]\<rparr>"
    have rd: "read_cb w stream nread in_buf r = Some ?w'"
      unfolding s(1) by (rule read_cb_negative_block [OF s(2) 4 assms(2) a(1)])
    have gone: "lookup ?w' a = None"
      using lt by (simp add: lookup_def)
    show ?thesis
      unfolding rd using 4 gone not_owns_freed [OF gone] a(2) lt by simp
  qed
qed

text \<open>
  C2. Whatever \<open>read_cb\<close> is called with, the read buffer is released exactly once and
  never twice (a second \<open>free\<close> would be undefined behaviour, and the call is defined).
  When \<open>uv_write\<close> accepted the write, the reader does not free the buffer: the request
  it registered owns it, and \<open>write_cb\<close> on that request frees it, once, whatever the
  status. On every other path (zero or negative count, or \<open>uv_write\<close> refused) the
  buffer is freed once before \<open>read_cb\<close> returns and no request owns it. And in any
  world, \<open>write_cb\<close> on a request that owns the buffer frees it once.
\<close>

theorem read_buffer_released_once:
  assumes "read_args_ok w stream nread in_buf" and "base in_buf = Some a"
  shows "(\<exists>w'. read_cb w stream nread in_buf r = Some w' \<and>
           (if 0 < nread \<and> r = 0 then
              count_list (trace w') (Free a) = count_list (trace w) (Free a) \<and>
              lookup w' a = lookup w a \<and>
              owns w' (length (heap w)) a \<and>
              map fst (writes stream (trace w')) =
                map fst (writes stream (trace w)) @ [length (heap w)] \<and>
              (\<forall>status. \<exists>w''. write_cb w' (length (heap w)) status = Some w'' \<and>
                 count_list (trace w'') (Free a) = count_list (trace w) (Free a) + 1 \<and>
                 lookup w'' a = None \<and>
                 lookup w'' (length (heap w)) = None)
            else
              count_list (trace w') (Free a) = count_list (trace w) (Free a) + 1 \<and>
              lookup w' a = None \<and>
              (\<forall>req. \<not> owns w' req a))) \<and>
         (\<forall>w2 req status. owns w2 req a \<longrightarrow>
            (\<exists>w3. write_cb w2 req status = Some w3 \<and>
               count_list (trace w3) (Free a) = count_list (trace w2) (Free a) + 1 \<and>
               lookup w3 a = None \<and>
               lookup w3 req = None))"
proof (intro conjI allI impI)
  show "\<exists>w'. read_cb w stream nread in_buf r = Some w' \<and>
           (if 0 < nread \<and> r = 0 then
              count_list (trace w') (Free a) = count_list (trace w) (Free a) \<and>
              lookup w' a = lookup w a \<and>
              owns w' (length (heap w)) a \<and>
              map fst (writes stream (trace w')) =
                map fst (writes stream (trace w)) @ [length (heap w)] \<and>
              (\<forall>status. \<exists>w''. write_cb w' (length (heap w)) status = Some w'' \<and>
                 count_list (trace w'') (Free a) = count_list (trace w) (Free a) + 1 \<and>
                 lookup w'' a = None \<and>
                 lookup w'' (length (heap w)) = None)
            else
              count_list (trace w') (Free a) = count_list (trace w) (Free a) + 1 \<and>
              lookup w' a = None \<and>
              (\<forall>req. \<not> owns w' req a))"
    by (rule read_cb_releases [OF assms])
next
  fix w2 req status
  assume own: "owns w2 req a"
  then have "a \<noteq> req"
    by (auto simp: owns_def split: option.splits obj.splits)
  with write_cb_releases [OF own, of status]
  show "\<exists>w3. write_cb w2 req status = Some w3 \<and>
          count_list (trace w3) (Free a) = count_list (trace w2) (Free a) + 1 \<and>
          lookup w3 a = None \<and>
          lookup w3 req = None"
    by auto
qed

theorem read_buffer_released_once_witness:
  "read_args_ok client_world (Client 0) 3 client_buf \<and> base client_buf = Some 1 \<and>
   (\<exists>w'. read_cb client_world (Client 0) 3 client_buf 0 = Some w' \<and>
      count_list (trace w') (Free 1) = 0 \<and>
      lookup w' 1 = Some (Bytes [104, 105, 33, 0]) \<and>
      owns w' 2 1 \<and>
      map fst (writes (Client 0) (trace w')) = [2] \<and>
      (\<exists>w''. write_cb w' 2 0 = Some w'' \<and>
         count_list (trace w'') (Free 1) = 1 \<and>
         lookup w'' 1 = None \<and>
         lookup w'' 2 = None)) \<and>
   read_args_ok client_world (Client 0) 0 client_buf \<and>
   (\<exists>w'. read_cb client_world (Client 0) 0 client_buf 0 = Some w' \<and>
      count_list (trace w') (Free 1) = 1 \<and>
      lookup w' 1 = None) \<and>
   owns pending_world 2 1 \<and>
   (\<exists>w3. write_cb pending_world 2 (- 32) = Some w3 \<and>
      count_list (trace w3) (Free 1) = 1 \<and>
      lookup w3 1 = None \<and>
      lookup w3 2 = None)"
proof -
  have h1: "read_args_ok client_world (Client 0) 3 client_buf"
    by (simp add: client_args_ok)
  have h0: "read_args_ok client_world (Client 0) 0 client_buf"
    by (simp add: client_args_ok)
  have h2: "base client_buf = Some 1"
    by (simp add: client_buf_def)
  have facts: "trace client_world = []" "length (heap client_world) = 2"
    "lookup client_world 1 = Some (Bytes [104, 105, 33, 0])"
    by (simp_all add: client_world_def lookup_def)
  from read_buffer_released_once [OF h1 h2, of 0] obtain w1 where w1:
    "read_cb client_world (Client 0) 3 client_buf 0 = Some w1"
    "count_list (trace w1) (Free 1) = count_list (trace client_world) (Free 1)"
    "lookup w1 1 = lookup client_world 1"
    "owns w1 (length (heap client_world)) 1"
    "map fst (writes (Client 0) (trace w1)) =
       map fst (writes (Client 0) (trace client_world)) @ [length (heap client_world)]"
    "\<forall>status. \<exists>w''. write_cb w1 (length (heap client_world)) status = Some w'' \<and>
       count_list (trace w'') (Free 1) = count_list (trace client_world) (Free 1) + 1 \<and>
       lookup w'' 1 = None \<and>
       lookup w'' (length (heap client_world)) = None"
    by auto
  from w1(6) obtain w2 where w2:
    "write_cb w1 (length (heap client_world)) 0 = Some w2"
    "count_list (trace w2) (Free 1) = count_list (trace client_world) (Free 1) + 1"
    "lookup w2 1 = None" "lookup w2 (length (heap client_world)) = None"
    by blast
  from read_buffer_released_once [OF h0 h2, of 0] obtain w3 where w3:
    "read_cb client_world (Client 0) 0 client_buf 0 = Some w3"
    "count_list (trace w3) (Free 1) = count_list (trace client_world) (Free 1) + 1"
    "lookup w3 1 = None"
    by auto
  have a: "\<exists>w'. read_cb client_world (Client 0) 3 client_buf 0 = Some w' \<and>
      count_list (trace w') (Free 1) = 0 \<and>
      lookup w' 1 = Some (Bytes [104, 105, 33, 0]) \<and>
      owns w' 2 1 \<and>
      map fst (writes (Client 0) (trace w')) = [2] \<and>
      (\<exists>w''. write_cb w' 2 0 = Some w'' \<and>
         count_list (trace w'') (Free 1) = 1 \<and>
         lookup w'' 1 = None \<and>
         lookup w'' 2 = None)"
    using w1(1-5) w2 unfolding facts by auto
  have b: "\<exists>w'. read_cb client_world (Client 0) 0 client_buf 0 = Some w' \<and>
      count_list (trace w') (Free 1) = 1 \<and>
      lookup w' 1 = None"
    using w3 unfolding facts by auto
  have own: "owns pending_world 2 1"
    by (rule pending_owns)
  from read_buffer_released_once [OF h1 h2, of 0] own obtain w4 where w4:
    "write_cb pending_world 2 (- 32) = Some w4"
    "count_list (trace w4) (Free 1) = count_list (trace pending_world) (Free 1) + 1"
    "lookup w4 1 = None" "lookup w4 2 = None"
    by blast
  have c: "\<exists>w3. write_cb pending_world 2 (- 32) = Some w3 \<and>
      count_list (trace w3) (Free 1) = 1 \<and>
      lookup w3 1 = None \<and>
      lookup w3 2 = None"
    using w4 by (auto simp: pending_world_def)
  from h1 h2 h0 a b own c show ?thesis
    by blast
qed

section \<open>\<open>connection_cb\<close>\<close>

text \<open>
  C3. The claim fails on the code: when \<open>uv_accept\<close> fails, \<open>connection_cb\<close> frees the
  block of the client handle and logs, but does not call \<open>uv_close\<close> on the handle that
  \<open>uv_tcp_init\<close> registered, so libuv is left with a handle whose memory is gone. Here:
  the first connection of a server started on port 8080, with \<open>uv_accept\<close> returning -24.
  The branch of the same function for a failed \<open>uv_read_start\<close> does close the handle
  before it frees it.
\<close>

theorem accept_failure_not_closed:
  "map_option trace (connection_cb started_world Server 0 (- 24) 0) =
     Some (trace started_world @
       [Uv_tcp_init Default_loop (Client 0),
        Uv_accept Server (Client 0) (- 24),
        Free 0,
        Stderr ''Error on accepting client connection'' (- 24)]) \<and>
   map_option (was_closed (Client 0)) (connection_cb started_world Server 0 (- 24) 0) =
     Some False \<and>
   map_option (dangling (Client 0)) (connection_cb started_world Server 0 (- 24) 0) =
     Some True \<and>
   map_option trace (connection_cb started_world Server 0 0 (- 24)) =
     Some (trace started_world @
       [Uv_tcp_init Default_loop (Client 0),
        Uv_accept Server (Client 0) 0,
        Uv_read_start (Client 0) (- 24),
        Uv_close (Client 0),
        Free 0,
        Stderr ''Error on reading client stream'' (- 24)]) \<and>
   map_option (was_closed (Client 0)) (connection_cb started_world Server 0 0 (- 24)) =
     Some True \<and>
   map_option (dangling (Client 0)) (connection_cb started_world Server 0 0 (- 24)) =
     Some False"
  by (simp add: started_world_eq connection_cb_accept_failed connection_cb_read_start_failed
      was_closed_def dangling_def handle_live_def lookup_def)

section \<open>Echo\<close>









section \<open>\<open>plusOne\<close>\<close>



















end
